theory Spec2Isabelle
  imports Complex_Main
begin

section \<open>Codebase context (frontend, CodebaseProvider)\<close>

text \<open>
  The provider keeps one JavaScript object in React state.  Its fields are
  \<^verbatim>\<open>id\<close>, \<^verbatim>\<open>status\<close>, \<^verbatim>\<open>error\<close>, \<^verbatim>\<open>insights\<close>, \<^verbatim>\<open>name\<close> and \<^verbatim>\<open>uploadType\<close>;
  \<^verbatim>\<open>id\<close> is written \<open>cb_id\<close> here because \<open>id\<close> is the identity function of HOL.
  A field that may hold \<^verbatim>\<open>null\<close> is an option.  The status is a JavaScript string,
  so it is a \<open>string\<close> here and not an enumeration: that only five literals are
  ever stored is a property of the operations, proved below.  The payload of
  \<^verbatim>\<open>insights\<close> is opaque to the provider and is a type parameter.
\<close>

record 'i codebase =
  cb_id :: "string option"
  status :: string
  error :: "string option"
  insights :: "'i option"
  name :: string
  uploadType :: "string option"

definition initial_codebase :: "'i codebase" where
  "initial_codebase =
     \<lparr>cb_id = None, status = ''idle'', error = None, insights = None,
      name = '''', uploadType = None\<rparr>"

text \<open>
  Every operation calls \<^verbatim>\<open>setCodebase\<close> with an object literal that spreads the
  record \<open>c\<close> its closure holds and then overwrites some fields.  The first
  argument of each function below is that record: the one of the render in which
  the function was created.
\<close>

definition startUpload :: "'i codebase \<Rightarrow> string \<Rightarrow> string \<Rightarrow> 'i codebase" where
  "startUpload c n ut =
     c\<lparr>name := n, uploadType := Some ut, status := ''uploading'', error := None\<rparr>"

definition uploadComplete :: "'i codebase \<Rightarrow> string \<Rightarrow> 'i codebase" where
  "uploadComplete c i = c\<lparr>cb_id := Some i, status := ''processing''\<rparr>"

definition uploadError :: "'i codebase \<Rightarrow> string \<Rightarrow> 'i codebase" where
  "uploadError c e = c\<lparr>status := ''error'', error := Some e\<rparr>"

definition setInsights :: "'i codebase \<Rightarrow> 'i \<Rightarrow> 'i codebase" where
  "setInsights c ins = c\<lparr>insights := Some ins, status := ''ready''\<rparr>"

definition resetCodebase :: "'i codebase \<Rightarrow> 'i codebase" where
  "resetCodebase c =
     \<lparr>cb_id = None, status = ''idle'', error = None, insights = None,
      name = '''', uploadType = None\<rparr>"

text \<open>
  A call of one of the five operations.  \<open>run\<close> and \<open>trace\<close> are the sequences in
  which every call is made from the render that followed its predecessor, so
  that it spreads the record the predecessor stored, as \<^verbatim>\<open>setInsights\<close> on the
  results page does after \<^verbatim>\<open>uploadComplete\<close> on the upload page.  Calls that one
  handler makes in a row do not: they are what \<open>replay\<close> below is for.
\<close>

datatype 'i operation =
    StartUpload string string
  | UploadComplete string
  | UploadError string
  | SetInsights 'i
  | ResetCodebase

fun apply_operation :: "'i codebase \<Rightarrow> 'i operation \<Rightarrow> 'i codebase" where
  "apply_operation c (StartUpload n ut) = startUpload c n ut"
| "apply_operation c (UploadComplete i) = uploadComplete c i"
| "apply_operation c (UploadError e) = uploadError c e"
| "apply_operation c (SetInsights ins) = setInsights c ins"
| "apply_operation c ResetCodebase = resetCodebase c"

fun run :: "'i codebase \<Rightarrow> 'i operation list \<Rightarrow> 'i codebase" where
  "run c [] = c"
| "run c (x # xs) = run (apply_operation c x) xs"

text \<open>The records a reader can observe during a run, the starting one first.\<close>

fun trace :: "'i codebase \<Rightarrow> 'i operation list \<Rightarrow> 'i codebase list" where
  "trace c [] = [c]"
| "trace c (x # xs) = c # trace (apply_operation c x) xs"

text \<open>
  A handler takes the operations from the context of the render in which it
  was created, and a call that it makes later still spreads the record of that
  render.  A call is therefore an operation together with the number of records
  that were stored since that render.  The history lists the stored records,
  the latest first; before the first store the provider holds the initial one.
\<close>

fun spread_record :: "'i codebase list \<Rightarrow> nat \<Rightarrow> 'i codebase" where
  "spread_record [] k = initial_codebase"
| "spread_record (c # h) k = (c # h) ! min k (length h)"

fun replay :: "'i codebase list \<Rightarrow> (nat \<times> 'i operation) list \<Rightarrow> 'i codebase list" where
  "replay h [] = h"
| "replay h ((k, x) # calls) = replay (apply_operation (spread_record h k) x # h) calls"

text \<open>
  \<^verbatim>\<open>handleSubmit\<close> of the upload page.  It returns without a call when no file is
  selected or the repository URL is empty.  Otherwise it calls \<^verbatim>\<open>startUpload\<close>,
  awaits the HTTP request, and then calls \<^verbatim>\<open>uploadComplete\<close> with the id of the
  response, or \<^verbatim>\<open>uploadError\<close> with \<^verbatim>\<open>err.response?.data?.detail || 'An error
  occurred during upload'\<close> when the request is rejected.  Both calls come from
  the one closure of the handler, so the second spreads the record from before
  the first: it is one store late.
\<close>

datatype upload_response = Resolved string | Rejected "string option"

definition upload_failure_message :: "string option \<Rightarrow> string" where
  "upload_failure_message detail =
     (case detail of
        None \<Rightarrow> ''An error occurred during upload''
      | Some d \<Rightarrow> if d = [] then ''An error occurred during upload'' else d)"

definition handleSubmit ::
  "string \<Rightarrow> string option \<Rightarrow> string \<Rightarrow> upload_response \<Rightarrow> (nat \<times> 'i operation) list"
where
  "handleSubmit kind file repoUrl response =
     (let settled =
        (case response of
           Resolved i \<Rightarrow> UploadComplete i
         | Rejected detail \<Rightarrow> UploadError (upload_failure_message detail))
      in if kind = ''file''
         then (case file of
                 None \<Rightarrow> []
               | Some fname \<Rightarrow> [(0, StartUpload fname ''file''), (1, settled)])
         else if repoUrl = [] then []
         else [(0, StartUpload repoUrl ''repo''), (1, settled)])"

text \<open>
  The five status literals of the source comment
  \<^verbatim>\<open>// idle, uploading, processing, ready, error\<close>, and the position of a status on
  the path idle, uploading, processing, then ready or error.  The two final
  statuses share the last position, so a move between them is not a move back.
\<close>

definition lifecycle_statuses :: "string list" where
  "lifecycle_statuses = [''idle'', ''uploading'', ''processing'', ''ready'', ''error'']"

definition stage :: "string \<Rightarrow> nat" where
  "stage s =
     (if s = ''idle'' then 0
      else if s = ''uploading'' then 1
      else if s = ''processing'' then 2
      else 3)"

text \<open>The status an operation writes.\<close>

fun written_status :: "'i operation \<Rightarrow> string" where
  "written_status (StartUpload n ut) = ''uploading''"
| "written_status (UploadComplete i) = ''processing''"
| "written_status (UploadError e) = ''error''"
| "written_status (SetInsights ins) = ''ready''"
| "written_status ResetCodebase = ''idle''"

text \<open>The status never moves to an earlier stage along a list of observed records.\<close>

definition never_backward :: "'i codebase list \<Rightarrow> bool" where
  "never_backward cs = sorted (map (\<lambda>c. stage (status c)) cs)"

text \<open>
  \<^verbatim>\<open>uploadComplete\<close> and \<^verbatim>\<open>setInsights\<close> do not mention \<^verbatim>\<open>error\<close> in their object
  literal: the spread copies whatever the record held.
\<close>

fun carries_error :: "'i operation \<Rightarrow> bool" where
  "carries_error (UploadComplete i) = True"
| "carries_error (SetInsights ins) = True"
| "carries_error x = False"

section \<open>Role context (frontend, RoleProvider)\<close>

record role =
  role_id :: string
  role_name :: string
  description :: string

record role_state =
  roles :: "role list"
  selectedRole :: string

definition default_roles :: "role list" where
  "default_roles =
     [\<lparr>role_id = ''project_manager'', role_name = ''Project Manager'',
       description = ''Focus on high-level architecture, dependencies, and project structure.''\<rparr>,
      \<lparr>role_id = ''frontend_developer'', role_name = ''Frontend Developer'',
       description = ''Focus on UI components, state management, and frontend architecture.''\<rparr>,
      \<lparr>role_id = ''backend_developer'', role_name = ''Backend Developer'',
       description = ''Focus on API design, data models, and server architecture.''\<rparr>,
      \<lparr>role_id = ''ai_ml_engineer'', role_name = ''AI/ML Engineer'',
       description = ''Focus on ML models, data pipelines, and AI architecture.''\<rparr>]"

definition initial_role_state :: role_state where
  "initial_role_state = \<lparr>roles = default_roles, selectedRole = ''project_manager''\<rparr>"

text \<open>
  \<^verbatim>\<open>changeRole\<close> returns a boolean and, on the true branch, calls
  \<^verbatim>\<open>setSelectedRole(roleId)\<close>: the result is the returned value with the state
  after the call.  \<^verbatim>\<open>roles.some(role => role.id === roleId)\<close> is \<open>list_ex\<close>.
\<close>

definition changeRole :: "role_state \<Rightarrow> string \<Rightarrow> bool \<times> role_state" where
  "changeRole s roleId =
     (if list_ex (\<lambda>r. role_id r = roleId) (roles s)
      then (True, s\<lparr>selectedRole := roleId\<rparr>)
      else (False, s))"

section \<open>Visualization dispatcher (frontend, components/visualizations)\<close>

text \<open>
  \<^verbatim>\<open>visualizationMap\<close> is an object literal with ten own properties.  Two of them
  are the imported components, eight are arrow functions that render a fixed
  placeholder text.  The fallback of \<^verbatim>\<open>Visualization\<close> is one more arrow function,
  closed over \<^verbatim>\<open>type\<close>.
\<close>

datatype component =
    FolderTree
  | DependencyGraph
  | Placeholder string
  | UnknownVisualization string

definition visualizationMap :: "(string \<times> component) list" where
  "visualizationMap =
     [(''folder_tree'', FolderTree),
      (''dependency_graph'', DependencyGraph),
      (''tech_stack'', Placeholder ''Tech Stack Visualization (Placeholder)''),
      (''component_hierarchy'', Placeholder ''Component Hierarchy Visualization (Placeholder)''),
      (''api_flow'', Placeholder ''API Flow Visualization (Placeholder)''),
      (''entity_relationship'', Placeholder ''Entity Relationship Visualization (Placeholder)''),
      (''api_documentation'', Placeholder ''API Documentation Visualization (Placeholder)''),
      (''flow_diagram'', Placeholder ''Flow Diagram Visualization (Placeholder)''),
      (''model_architecture'', Placeholder ''Model Architecture Visualization (Placeholder)''),
      (''pipeline_flow'', Placeholder ''Pipeline Flow Visualization (Placeholder)'')]"

text \<open>
  \<^verbatim>\<open>visualizationMap[type]\<close> is the property read of JavaScript: an own property
  first, then the prototype chain.  The prototype of an object literal is
  \<^verbatim>\<open>Object.prototype\<close>, whose properties are the ones listed here: eleven native
  functions, and the accessor \<^verbatim>\<open>__proto__\<close>, which yields \<^verbatim>\<open>Object.prototype\<close>
  itself.  A read that finds nothing yields \<^verbatim>\<open>undefined\<close>.
\<close>

datatype js_value =
    Undefined
  | Component component
  | NativeFunction string
  | ObjectPrototype

definition object_prototype :: "(string \<times> js_value) list" where
  "object_prototype =
     [(''constructor'', NativeFunction ''Object''),
      (''toString'', NativeFunction ''Object.prototype.toString''),
      (''toLocaleString'', NativeFunction ''Object.prototype.toLocaleString''),
      (''valueOf'', NativeFunction ''Object.prototype.valueOf''),
      (''hasOwnProperty'', NativeFunction ''Object.prototype.hasOwnProperty''),
      (''isPrototypeOf'', NativeFunction ''Object.prototype.isPrototypeOf''),
      (''propertyIsEnumerable'', NativeFunction ''Object.prototype.propertyIsEnumerable''),
      (''__defineGetter__'', NativeFunction ''Object.prototype.__defineGetter__''),
      (''__defineSetter__'', NativeFunction ''Object.prototype.__defineSetter__''),
      (''__lookupGetter__'', NativeFunction ''Object.prototype.__lookupGetter__''),
      (''__lookupSetter__'', NativeFunction ''Object.prototype.__lookupSetter__''),
      (''__proto__'', ObjectPrototype)]"

definition property_read :: "(string \<times> component) list \<Rightarrow> string \<Rightarrow> js_value" where
  "property_read obj key =
     (case map_of obj key of
        Some c \<Rightarrow> Component c
      | None \<Rightarrow> (case map_of object_prototype key of Some v \<Rightarrow> v | None \<Rightarrow> Undefined))"

text \<open>Of the values above only \<^verbatim>\<open>undefined\<close> is falsy.\<close>

fun truthy :: "js_value \<Rightarrow> bool" where
  "truthy Undefined = False"
| "truthy v = True"

text \<open>
  \<^verbatim>\<open>Visualization\<close> returns the element \<^verbatim>\<open><VisualizationComponent data config />\<close>;
  \<open>data\<close> and \<open>config\<close> are handed on and play no part in the choice, so the
  function's result here is the value chosen as \<^verbatim>\<open>VisualizationComponent\<close>.
\<close>

definition Visualization :: "string \<Rightarrow> js_value" where
  "Visualization ty =
     (let v = property_read visualizationMap ty
      in if truthy v then v else Component (UnknownVisualization ty))"

section \<open>Ingestion pipeline and chunking (backend)\<close>

text \<open>
  The backend packages (the parsers, the RAG pipeline, the role manager and the
  FastAPI endpoints) are not among the source files of the frontend; what
  follows in the backend sections is written from the specification's text.
\<close>

text \<open>
  Modelled from the spec: the chunking policy of the Ingestion Pipeline (the
  pipeline's code is missing).  "A fixed chunk-size/overlap policy".
\<close>

record policy =
  chunk_size :: nat
  overlap :: nat

text \<open>
  Modelled from the spec: SourceFile of the data model, with the content that was
  read for it (the ingestion code is missing).
\<close>

record source_file =
  path :: string
  content :: string

text \<open>
  Modelled from the spec: Chunk of the data model, "id, owning sourceFile
  reference, ordinal (position within file), text, embedding (fixed-length
  numeric vector)" (the indexer's code is missing).  The numbers are rationals;
  the field \<^verbatim>\<open>text\<close> is written \<open>chunk_text\<close>.
\<close>

record chunk =
  chunk_id :: nat
  sourceFile :: string
  ordinal :: nat
  chunk_text :: string
  embedding :: "rat list"

text \<open>
  Modelled from the spec: "fixed-size sliding windows with overlap" (the chunker's
  code is missing).  A window has \<open>width\<close> characters and the next one starts
  \<open>stride\<close> characters later, so neighbours share \<open>width - stride\<close> characters.  The
  specification does not say what a policy without progress does; here it
  yields no window.
\<close>

function windows :: "nat \<Rightarrow> nat \<Rightarrow> string \<Rightarrow> string list" where
  "windows width stride s =
     (if s = [] \<or> stride = 0 then []
      else if length s \<le> width then [s]
      else take width s # windows width stride (drop stride s))"
  by pat_completeness auto
termination
  by (relation "measure (\<lambda>(width, stride, s). length s)") auto

declare windows.simps [simp del]

text \<open>
  Modelled from the spec: "split on structural boundaries where available (e.g.,
  symbol bodies) falling back to fixed-size sliding windows with overlap" (the
  chunker's code is missing).  The structural splitter belongs to the language
  adapters and is a parameter: it yields the spans of a file, or nothing.
\<close>

definition chunk_texts :: "policy \<Rightarrow> (string \<Rightarrow> string list option) \<Rightarrow> string \<Rightarrow> string list" where
  "chunk_texts pol boundaries s =
     (case boundaries s of
        Some spans \<Rightarrow> spans
      | None \<Rightarrow> windows (chunk_size pol) (chunk_size pol - overlap pol) s)"

text \<open>
  Modelled from the spec: the chunks of one file, "ordinal (position within
  file)" (the pipeline's code is missing).  Chunk ids are handed out from a
  counter shared by all workers, \<open>first\<close> being its value when the file's chunks
  are emitted; the embedding capability \<^verbatim>\<open>embed\<close>, here \<open>emb\<close>, is injected.
\<close>

definition chunk_file ::
  "policy \<Rightarrow> (string \<Rightarrow> string list option) \<Rightarrow> (string \<Rightarrow> rat list) \<Rightarrow> nat \<Rightarrow> source_file \<Rightarrow> chunk list"
where
  "chunk_file pol boundaries emb first f =
     map (\<lambda>(i, t). \<lparr>chunk_id = first + i, sourceFile = path f, ordinal = i, chunk_text = t,
                     embedding = emb t\<rparr>)
       (enumerate 0 (chunk_texts pol boundaries (content f)))"

text \<open>
  Modelled from the spec: one ingestion run of the Ingestion Pipeline (its code
  is missing).  The files are listed in the order in which the workers finish
  them, which is what the interleaving decides.
\<close>

fun ingest ::
  "policy \<Rightarrow> (string \<Rightarrow> string list option) \<Rightarrow> (string \<Rightarrow> rat list) \<Rightarrow> nat \<Rightarrow> source_file list \<Rightarrow> chunk list"
where
  "ingest pol boundaries emb next [] = []"
| "ingest pol boundaries emb next (f # fs) =
     chunk_file pol boundaries emb next f @
     ingest pol boundaries emb
       (next + length (chunk_texts pol boundaries (content f))) fs"

text \<open>
  Modelled from the spec: what a reader of a run's chunks sees of one file, the
  ordinals and texts of the chunks whose sourceFile is \<open>p\<close> (the pipeline's code
  is missing).
\<close>

definition ordinals_of :: "string \<Rightarrow> chunk list \<Rightarrow> (nat \<times> string) list" where
  "ordinals_of p cs = map (\<lambda>c. (ordinal c, chunk_text c)) (filter (\<lambda>c. sourceFile c = p) cs)"

section \<open>Chunk and embedding indexer: retrieval (backend)\<close>

text \<open>
  Modelled from the spec: inner-product similarity of two embeddings, one of the
  two similarities the VectorIndex may use (the index's code is missing).  On
  embeddings of unit norm it is the cosine.
\<close>

fun inner_product :: "rat list \<Rightarrow> rat list \<Rightarrow> rat" where
  "inner_product (x # xs) (y # ys) = x * y + inner_product xs ys"
| "inner_product xs ys = 0"

text \<open>
  Modelled from the spec: "max_similarity(selected)", the largest similarity of
  an embedding to the chunks selected so far (the retriever's code is missing).
  Nothing is selected before the first pick, and the term is then zero.
\<close>

fun max_similarity :: "(rat list \<Rightarrow> rat list \<Rightarrow> rat) \<Rightarrow> chunk list \<Rightarrow> rat list \<Rightarrow> rat" where
  "max_similarity sim [] e = 0"
| "max_similarity sim [s] e = sim e (embedding s)"
| "max_similarity sim (s # ss) e = max (sim e (embedding s)) (max_similarity sim ss e)"

text \<open>
  Modelled from the spec: the score of a candidate, "\<open>\<lambda>\<close> similarity(query) -
  (1 - \<open>\<lambda>\<close>) max_similarity(selected)" when diversification is requested, and its
  similarity to the query otherwise (the retriever's code is missing).
\<close>

definition score ::
  "(rat list \<Rightarrow> rat list \<Rightarrow> rat) \<Rightarrow> rat \<Rightarrow> bool \<Rightarrow> rat list \<Rightarrow> chunk list \<Rightarrow> chunk \<Rightarrow> rat"
where
  "score sim lam diversify q selected c =
     (if diversify
      then lam * sim q (embedding c) - (1 - lam) * max_similarity sim selected (embedding c)
      else sim q (embedding c))"

text \<open>
  Modelled from the spec: "ties broken by chunk id", the better of two candidates
  under a score (the retriever's code is missing).
\<close>

definition better :: "(chunk \<Rightarrow> rat) \<Rightarrow> chunk \<Rightarrow> chunk \<Rightarrow> chunk" where
  "better f a b =
     (if f a < f b \<or> (f a = f b \<and> chunk_id b < chunk_id a) then b else a)"

text \<open>
  Modelled from the spec: the candidate that maximises the score, the best of a
  non-empty list \<open>c # cs\<close> (the retriever's code is missing).
\<close>

fun best :: "(chunk \<Rightarrow> rat) \<Rightarrow> chunk \<Rightarrow> chunk list \<Rightarrow> chunk" where
  "best f c [] = c"
| "best f c (d # ds) = best f (better f c d) ds"

text \<open>
  Modelled from the spec: "iteratively pick the chunk maximizing" the score, at
  most \<open>k\<close> times, each pick leaving the candidates (the retriever's code is
  missing).  The result lists the picks in the order they were made.
\<close>

fun select ::
  "(rat list \<Rightarrow> rat list \<Rightarrow> rat) \<Rightarrow> rat \<Rightarrow> bool \<Rightarrow> rat list \<Rightarrow> nat \<Rightarrow> chunk list \<Rightarrow> chunk list \<Rightarrow> chunk list"
where
  "select sim lam diversify q 0 selected candidates = selected"
| "select sim lam diversify q (Suc k) selected [] = selected"
| "select sim lam diversify q (Suc k) selected (c # cs) =
     (let b = best (score sim lam diversify q selected) c cs
      in select sim lam diversify q k (selected @ [b]) (remove1 b (c # cs)))"

text \<open>
  Modelled from the spec: the retrieval contract "search(index, queryVector, k,
  diversify) -> ordered [Chunk]" (the retriever's code is missing).  The
  similarity and the weight \<open>\<lambda>\<close> are parameters; the defaults are \<open>\<lambda> = 1/2\<close> and
  \<open>k = 5\<close>.
\<close>

definition search ::
  "(rat list \<Rightarrow> rat list \<Rightarrow> rat) \<Rightarrow> rat \<Rightarrow> chunk list \<Rightarrow> rat list \<Rightarrow> nat \<Rightarrow> bool \<Rightarrow> chunk list"
where
  "search sim lam index q k diversify = select sim lam diversify q k [] index"

section \<open>Role template store (backend)\<close>

text \<open>
  Modelled from the spec: AnalysisTask of the data model, "id, type (category
  tag), question, optional visualizationSpec (type + config mapping)" (the role
  manager's code is missing).
\<close>

record analysis_task =
  task_id :: string
  task_type :: string
  question :: string
  visualizationSpec :: "(string \<times> (string \<times> string) list) option"

text \<open>
  Modelled from the spec: RoleTemplate of the data model, "id, name, description,
  promptTemplate (string with named placeholders: context, focus, question),
  analysisTasks (ordered list)" (the role manager's code is missing).
\<close>

record role_template =
  template_id :: string
  template_name :: string
  template_description :: string
  promptTemplate :: string
  analysisTasks :: "analysis_task list"

text \<open>
  Modelled from the spec: the "named placeholders" of a prompt template, read as
  the names written between braces (the role manager's code is missing).  The
  first argument holds the reversed name that is open, if one is; a brace
  without its partner or an empty name leaves no placeholder list.
\<close>

fun scan :: "string option \<Rightarrow> string \<Rightarrow> string list option" where
  "scan None [] = Some []"
| "scan (Some n) [] = None"
| "scan None (c # cs) =
     (if c = CHR ''{'' then scan (Some []) cs
      else if c = CHR ''}'' then None
      else scan None cs)"
| "scan (Some n) (c # cs) =
     (if c = CHR ''}'' then (if n = [] then None else map_option ((#) (rev n)) (scan None cs))
      else if c = CHR ''{'' then None
      else scan (Some (c # n)) cs)"

text \<open>
  Modelled from the spec: the placeholder names of a prompt template, in the
  order they occur (the role manager's code is missing).
\<close>

definition placeholders :: "string \<Rightarrow> string list option" where
  "placeholders s = scan None s"

text \<open>
  Modelled from the spec: the two conditions the claim names, the placeholder set
  "context, focus, question" and task ids that differ within a template (the
  role manager's code is missing).
\<close>

definition placeholder_set_ok :: "role_template \<Rightarrow> bool" where
  "placeholder_set_ok t =
     (case placeholders (promptTemplate t) of
        None \<Rightarrow> False
      | Some names \<Rightarrow> set names = {''context'', ''focus'', ''question''})"

text \<open>
  Modelled from the spec: no "duplicate task ids within a template" (the role
  manager's code is missing).
\<close>

definition task_ids_ok :: "role_template \<Rightarrow> bool" where
  "task_ids_ok t = distinct (map task_id (analysisTasks t))"

text \<open>
  Modelled from the spec: the three reasons for which a template is rejected at
  load time (the role manager's code is missing).
\<close>

datatype load_error = MalformedPlaceholders | DuplicateTaskIds | UnknownId

text \<open>
  Modelled from the spec: "reject at load time any template with a malformed
  placeholder set, duplicate task ids within a template, or unknown id" (the
  role manager's code is missing).  The ids the process knows are a parameter.
\<close>

definition validate :: "string list \<Rightarrow> role_template \<Rightarrow> load_error + role_template" where
  "validate known t =
     (if \<not> placeholder_set_ok t then Inl MalformedPlaceholders
      else if \<not> task_ids_ok t then Inl DuplicateTaskIds
      else if template_id t \<notin> set known then Inl UnknownId
      else Inr t)"

text \<open>
  Modelled from the spec: loading, "loaded at process start; treated as immutable
  configuration" (the role manager's code is missing).  The store holds the
  templates that were not rejected, in the order given.
\<close>

fun load_templates :: "string list \<Rightarrow> role_template list \<Rightarrow> role_template list" where
  "load_templates known [] = []"
| "load_templates known (t # ts) =
     (case validate known t of
        Inl e \<Rightarrow> load_templates known ts
      | Inr v \<Rightarrow> v # load_templates known ts)"

text \<open>
  Modelled from the spec: the NotFound of the store's \<^verbatim>\<open>get\<close> (the role manager's
  code is missing).
\<close>

datatype store_error = TemplateNotFound

text \<open>
  Modelled from the spec: "get(roleId) -> RoleTemplate | NotFound" (the role
  manager's code is missing).  A query looks the id up and checks nothing else.
\<close>

definition get_template :: "role_template list \<Rightarrow> string \<Rightarrow> store_error + role_template" where
  "get_template store roleId =
     (case find (\<lambda>t. template_id t = roleId) store of
        None \<Rightarrow> Inl TemplateNotFound
      | Some t \<Rightarrow> Inr t)"

text \<open>
  The template file \<^verbatim>\<open>rag/templates/project_manager.json\<close> of the repository, with
  the fields the data model names.
\<close>

definition project_manager :: role_template where
  "project_manager =
     \<lparr>template_id = ''project_manager'',
      template_name = ''Project Manager'',
      template_description = ''Template for Project Manager role'',
      promptTemplate =
        ''You are analyzing a codebase for a Project Manager. Focus on high-level architecture, dependencies, and project structure.''
        @ [CHR 0x0A, CHR 0x0A] @ ''Context information is below:''
        @ [CHR 0x0A] @ ''---------------------''
        @ [CHR 0x0A] @ ''{context}''
        @ [CHR 0x0A] @ ''---------------------''
        @ [CHR 0x0A, CHR 0x0A] @ ''Given the above context, answer the following question about {focus}:''
        @ [CHR 0x0A] @ ''{question}'',
      analysisTasks =
        [\<lparr>task_id = ''project_structure'', task_type = ''structure'',
          question = ''What is the overall structure of this project? Identify main components and their relationships.'',
          visualizationSpec = Some (''folder_tree'', [(''max_depth'', ''3'')])\<rparr>,
         \<lparr>task_id = ''dependencies'', task_type = ''dependencies'',
          question = ''What are the main dependencies of this project and how are they used?'',
          visualizationSpec = Some (''dependency_graph'', [(''show_versions'', ''true'')])\<rparr>,
         \<lparr>task_id = ''complexity'', task_type = ''complexity'',
          question = ''Which parts of the codebase are most complex and might need refactoring or additional resources?'',
          visualizationSpec = None\<rparr>,
         \<lparr>task_id = ''tech_stack'', task_type = ''technology'',
          question = ''What technologies and frameworks are used in this project?'',
          visualizationSpec = Some (''tech_stack'', [(''grouped'', ''true'')])\<rparr>]\<rparr>"

text \<open>
  The sample template of the RAG package's README: its placeholders are
  \<^verbatim>\<open>role\<close>, \<^verbatim>\<open>focus\<close> and \<^verbatim>\<open>task\<close>.
\<close>

definition readme_sample :: role_template where
  "readme_sample =
     \<lparr>template_id = ''role_id'',
      template_name = ''Role Name'',
      template_description = ''Role description'',
      promptTemplate = ''As a {role}, analyze {focus} and provide insights about {task}'',
      analysisTasks =
        [\<lparr>task_id = ''task_id'', task_type = ''task_type'', question = '''',
          visualizationSpec = Some (''visualization_type'', [])\<rparr>]\<rparr>"

section \<open>Retrieval and insight orchestrator (backend)\<close>

text \<open>
  Modelled from the spec: the error of the generation capability, "fails with
  GenerationError on timeout/quota/malformed response" (the pipeline's code is
  missing).
\<close>

datatype generation_error = GenerationError

text \<open>
  Modelled from the spec: the injected capabilities and settings of one
  orchestrator (the pipeline's code is missing): the similarity and weight of
  the search with its \<open>k\<close>, the bound on the context length, the embedding of a
  query, "generate(prompt) -> text", and the prompt of the summary call, which
  is "seeded with the accumulated answers".
\<close>

record orchestrator =
  similarity :: "rat list \<Rightarrow> rat list \<Rightarrow> rat"
  weight :: rat
  top_k :: nat
  max_context :: nat
  embed_query :: "string \<Rightarrow> rat list"
  generate :: "string \<Rightarrow> generation_error + string"
  summary_prompt :: "string list \<Rightarrow> string"

text \<open>
  Modelled from the spec: InsightResult of the data model, "taskId, question,
  answer, citedChunkIds (ordered sequence, possibly empty), visualization
  (optional, derived from task's visualizationSpec)" (the pipeline's code is
  missing).
\<close>

record insight_result =
  taskId :: string
  asked :: string
  answer :: string
  citedChunkIds :: "nat list"
  visualization :: "(string \<times> (string \<times> string) list) option"

text \<open>
  Modelled from the spec: what a run records for one task, an InsightResult or
  the task "reported with a GenerationError marker" (the pipeline's code is
  missing).
\<close>

datatype task_outcome =
    Answered insight_result
  | TaskFailed string generation_error

text \<open>
  Modelled from the spec: the task an outcome belongs to, and whether it is the
  failure marker (the pipeline's code is missing).
\<close>

fun outcome_task :: "task_outcome \<Rightarrow> string" where
  "outcome_task (Answered r) = taskId r"
| "outcome_task (TaskFailed t e) = t"

fun is_failed :: "task_outcome \<Rightarrow> bool" where
  "is_failed (Answered r) = False"
| "is_failed (TaskFailed t e) = True"

text \<open>
  Modelled from the spec: the final states of a run, "completed | partial |
  failed" (the pipeline's code is missing).
\<close>

datatype run_status = Completed | Partial | Failed

text \<open>
  Modelled from the spec: what a run yields, its final state, the "InsightResult
  set" with the failed tasks, and the "top-level summary", the result of the
  summary call (the pipeline's code is missing).
\<close>

record insight_run =
  run_state :: run_status
  outcomes :: "task_outcome list"
  summary :: "(generation_error + string) option"

text \<open>
  Modelled from the spec: step 1, "build a query from task.question plus
  optional focus" (the pipeline's code is missing).
\<close>

definition build_query :: "analysis_task \<Rightarrow> string option \<Rightarrow> string" where
  "build_query t focus =
     (case focus of None \<Rightarrow> question t | Some f \<Rightarrow> question t @ '' '' @ f)"

text \<open>
  Modelled from the spec: the context of step 3, "concatenated retrieved chunk
  texts (bounded to a maximum total length; oldest-lowest-ranked chunks
  truncated first)" (the pipeline's code is missing).  The chunks kept are the
  best-ranked ones whose texts fit together.
\<close>

fun bounded :: "nat \<Rightarrow> chunk list \<Rightarrow> chunk list" where
  "bounded m [] = []"
| "bounded m (c # cs) =
     (if length (chunk_text c) \<le> m then c # bounded (m - length (chunk_text c)) cs else [])"

text \<open>
  Modelled from the spec: step 3, "render the role's promptTemplate substituting
  context, focus, question" (the pipeline's code is missing).  Each name in
  braces is replaced by what \<open>b\<close> binds to it.
\<close>

fun fill :: "(string \<Rightarrow> string) \<Rightarrow> string option \<Rightarrow> string \<Rightarrow> string" where
  "fill b None [] = []"
| "fill b (Some n) [] = CHR ''{'' # rev n"
| "fill b None (c # cs) =
     (if c = CHR ''{'' then fill b (Some []) cs else c # fill b None cs)"
| "fill b (Some n) (c # cs) =
     (if c = CHR ''}'' then b (rev n) @ fill b None cs else fill b (Some (c # n)) cs)"

text \<open>
  Modelled from the spec: the rendered prompt of step 3, with "context", "focus"
  and "question" bound (the pipeline's code is missing).  An absent focus is the
  empty string.
\<close>

definition render :: "role_template \<Rightarrow> string \<Rightarrow> string option \<Rightarrow> string \<Rightarrow> string" where
  "render tpl ctx focus q =
     fill (\<lambda>n. if n = ''context'' then ctx
               else if n = ''focus'' then (case focus of None \<Rightarrow> '''' | Some f \<Rightarrow> f)
               else if n = ''question'' then q
               else '''')
       None (promptTemplate tpl)"

text \<open>
  Modelled from the spec: steps 1 to 3 for one task, the chunks used in the
  rendered context and the prompt (the pipeline's code is missing).
\<close>

definition used_chunks :: "orchestrator \<Rightarrow> chunk list \<Rightarrow> string option \<Rightarrow> analysis_task \<Rightarrow> chunk list" where
  "used_chunks orc index focus t =
     bounded (max_context orc)
       (search (similarity orc) (weight orc) index (embed_query orc (build_query t focus))
          (top_k orc) True)"

text \<open>
  Modelled from the spec: the prompt of one task, the template rendered with the
  texts of the chunks used, the focus and the task's question (the pipeline's
  code is missing).
\<close>

definition task_prompt ::
  "orchestrator \<Rightarrow> role_template \<Rightarrow> chunk list \<Rightarrow> string option \<Rightarrow> analysis_task \<Rightarrow> string"
where
  "task_prompt orc tpl index focus t =
     render tpl (concat (map chunk_text (used_chunks orc index focus t))) focus (question t)"

text \<open>
  Modelled from the spec: steps 4 and 5 for one task, "invoke the generation
  capability; on GenerationError, record that task as failed", else "assemble
  InsightResult with citations = ids of chunks actually used in the rendered
  context, in retrieval rank order" (the pipeline's code is missing).
\<close>

definition run_task ::
  "orchestrator \<Rightarrow> role_template \<Rightarrow> chunk list \<Rightarrow> string option \<Rightarrow> analysis_task \<Rightarrow> task_outcome"
where
  "run_task orc tpl index focus t =
     (case generate orc (task_prompt orc tpl index focus t) of
        Inl e \<Rightarrow> TaskFailed (task_id t) e
      | Inr a \<Rightarrow>
          Answered
            \<lparr>taskId = task_id t, asked = question t, answer = a,
             citedChunkIds = map chunk_id (used_chunks orc index focus t),
             visualization = visualizationSpec t\<rparr>)"

text \<open>
  Modelled from the spec: "the accumulated answers", those of the tasks that
  succeeded, in task order (the pipeline's code is missing).
\<close>

fun answers :: "task_outcome list \<Rightarrow> string list" where
  "answers [] = []"
| "answers (Answered r # os) = answer r # answers os"
| "answers (TaskFailed t e # os) = answers os"

text \<open>
  Modelled from the spec: one orchestration run (the pipeline's code is
  missing).  The tasks run one after the other, a failed one does not stop the
  rest; then comes the summary call on the accumulated answers.  "completed if
  every task succeeded, partial if some failed, failed only if retrieval itself
  could not execute", which is the case when the index is missing.
\<close>

definition orchestrate ::
  "orchestrator \<Rightarrow> role_template \<Rightarrow> chunk list option \<Rightarrow> string option \<Rightarrow> insight_run"
where
  "orchestrate orc tpl index focus =
     (case index of
        None \<Rightarrow> \<lparr>run_state = Failed, outcomes = [], summary = None\<rparr>
      | Some ix \<Rightarrow>
          (let outs = map (run_task orc tpl ix focus) (analysisTasks tpl)
           in \<lparr>run_state = (if list_ex is_failed outs then Partial else Completed),
               outcomes = outs,
               summary = Some (generate orc (summary_prompt orc (answers outs)))\<rparr>))"

section \<open>Insight query (backend interface and frontend caller)\<close>

text \<open>
  Modelled from the spec: the status of a Codebase of the registry, "idle,
  uploading, processing, ready, error", of a Codebase with "status, error
  (optional message), sourceRoot, index (owned VectorIndex, present only when
  ready)" (the registry's code is missing).
\<close>

datatype lifecycle = Idle | Uploading | Processing | Ready | Errored




text \<open>
  The caller in \<^verbatim>\<open>services/api.js\<close>: \<^verbatim>\<open>getInsights(codebaseId, role, specificFocus =
  null)\<close> posts the three values to \<^verbatim>\<open>/api/insights\<close> and returns what the client
  returns.  The HTTP client is the parameter \<open>post\<close>.
\<close>

record insights_request =
  codebase_id :: string
  role :: string
  specific_focus :: "string option"



section \<open>Properties of the role context\<close>

text \<open>
  C8.  For every role id, \<^verbatim>\<open>changeRole(roleId)\<close> returns true and selects
  \<open>roleId\<close> exactly when some role of the current list has that id; otherwise it
  returns false and leaves the selection as it was.  The list of roles is left
  alone in both cases.
\<close>

theorem changeRole_iff:
  "(fst (changeRole s roleId) \<longleftrightarrow> roleId \<in> role_id ` set (roles s)) \<and>
   selectedRole (snd (changeRole s roleId)) =
     (if roleId \<in> role_id ` set (roles s) then roleId else selectedRole s) \<and>
   roles (snd (changeRole s roleId)) = roles s"
  by (auto simp: changeRole_def list_ex_iff)

theorem changeRole_iff_witness:
  "fst (changeRole initial_role_state ''backend_developer'') \<and>
   selectedRole (snd (changeRole initial_role_state ''backend_developer'')) = ''backend_developer'' \<and>
   \<not> fst (changeRole initial_role_state ''designer'') \<and>
   selectedRole (snd (changeRole initial_role_state ''designer'')) = ''project_manager''"
  using changeRole_iff [of initial_role_state "''backend_developer''"]
    changeRole_iff [of initial_role_state "''designer''"]
  by (simp add: initial_role_state_def default_roles_def)

section \<open>Properties of the codebase context\<close>

lemma status_apply_operation: "status (apply_operation c x) = written_status x"
  by (cases x)
    (simp_all add: startUpload_def uploadComplete_def uploadError_def setInsights_def
      resetCodebase_def)

lemma written_status_lifecycle: "written_status x \<in> set lifecycle_statuses"
  by (cases x) (simp_all add: lifecycle_statuses_def)

lemma status_run:
  "status (run c xs) = (if xs = [] then status c else written_status (last xs))"
  by (induction xs arbitrary: c) (simp_all add: status_apply_operation)

lemma map_status_trace:
  "map status (trace c xs) = status c # map written_status xs"
  by (induction xs arbitrary: c) (simp_all add: status_apply_operation)

text \<open>
  C9.  \<^verbatim>\<open>startUpload(name, uploadType)\<close> writes the name, the upload type, the
  status \<^verbatim>\<open>'uploading'\<close> and a null error; the id and the insights of the record
  it spreads are kept.  Insights stored by an earlier \<^verbatim>\<open>setInsights\<close> therefore
  stay attached while the next upload is in flight.
\<close>

theorem startUpload_frame:
  "name (startUpload c n ut) = n \<and>
   uploadType (startUpload c n ut) = Some ut \<and>
   status (startUpload c n ut) = ''uploading'' \<and>
   error (startUpload c n ut) = None \<and>
   cb_id (startUpload c n ut) = cb_id c \<and>
   insights (startUpload c n ut) = insights c \<and>
   insights (run c [SetInsights ins, StartUpload n ut]) = Some ins \<and>
   status (run c [SetInsights ins, StartUpload n ut]) = ''uploading''"
  by (simp add: startUpload_def setInsights_def)

theorem startUpload_frame_witness:
  "cb_id (startUpload (setInsights (uploadComplete initial_codebase ''abc123'') (7::nat))
      ''repo.zip'' ''file'') = Some ''abc123'' \<and>
   insights (startUpload (setInsights (uploadComplete initial_codebase ''abc123'') (7::nat))
      ''repo.zip'' ''file'') = Some 7 \<and>
   status (startUpload (setInsights (uploadComplete initial_codebase ''abc123'') (7::nat))
      ''repo.zip'' ''file'') = ''uploading''"
  using startUpload_frame
    [of "setInsights (uploadComplete initial_codebase ''abc123'') (7::nat)" "''repo.zip''" "''file''"]
  by (simp add: setInsights_def uploadComplete_def)


lemma error_apply_operation:
  "error (apply_operation c x) = Some m \<Longrightarrow> x = UploadError m \<or> error c = Some m"
  by (cases x)
    (simp_all add: startUpload_def uploadComplete_def uploadError_def setInsights_def
      resetCodebase_def)

lemma error_run_from:
  "error (run c xs) = Some m \<Longrightarrow> UploadError m \<in> set xs \<or> error c = Some m"
proof (induction xs arbitrary: c)
  case Nil
  then show ?case by simp
next
  case (Cons x xs)
  from Cons.IH [of "apply_operation c x"] Cons.prems
  have "UploadError m \<in> set xs \<or> error (apply_operation c x) = Some m"
    by simp
  then show ?case
    using error_apply_operation [of c x m] by auto
qed

text \<open>
  C1, as the code has it.  An operation overwrites the status with its own
  literal, whatever the status was.  Hence the statuses observed during a run
  never move to an earlier stage of idle, uploading, processing, ready or error
  exactly when the operations themselves are issued in the order of their
  stages, as the upload flow \<^verbatim>\<open>startUpload\<close>, \<^verbatim>\<open>uploadComplete\<close>, \<^verbatim>\<open>setInsights\<close>
  does.
\<close>

theorem status_monotone_iff_ordered:
  "status (apply_operation c x) = written_status x \<and>
   (never_backward (trace c xs) \<longleftrightarrow>
      sorted (stage (status c) # map (\<lambda>x. stage (written_status x)) xs))"
proof -
  have "map (\<lambda>c. stage (status c)) (trace c xs) = map stage (map status (trace c xs))"
    by simp
  also have "\<dots> = stage (status c) # map (\<lambda>x. stage (written_status x)) xs"
    by (simp add: map_status_trace)
  finally show ?thesis
    by (simp add: never_backward_def status_apply_operation)
qed

theorem status_monotone_iff_ordered_witness:
  "never_backward (trace (initial_codebase :: nat codebase)
     [StartUpload ''repo.zip'' ''file'', UploadComplete ''abc123'', SetInsights 7])"
  using status_monotone_iff_ordered
    [of "initial_codebase :: nat codebase" "ResetCodebase"
      "[StartUpload ''repo.zip'' ''file'', UploadComplete ''abc123'', SetInsights 7]"]
  by (simp add: initial_codebase_def stage_def)

text \<open>
  The claim as the specification words it, for every sequence of operations, fails:
  \<^verbatim>\<open>resetCodebase\<close> returns an uploading record to idle, and a \<^verbatim>\<open>startUpload\<close> on
  a ready record returns it to uploading.
\<close>

theorem status_monotone_counterexample:
  "\<not> never_backward (trace (initial_codebase :: nat codebase)
       [StartUpload ''repo.zip'' ''file'', ResetCodebase]) \<and>
   \<not> never_backward (trace (initial_codebase :: nat codebase)
       [StartUpload ''repo.zip'' ''file'', UploadComplete ''abc123'', SetInsights 7,
        StartUpload ''next.zip'' ''file''])"
  by (simp add: never_backward_def initial_codebase_def stage_def startUpload_def
      uploadComplete_def setInsights_def resetCodebase_def)

text \<open>
  Calls that spread an earlier record: \<open>run\<close> and \<open>trace\<close> are the case in which
  every call spreads the latest one, the status written does not depend on the
  record spread, and the second call of \<^verbatim>\<open>handleSubmit\<close> undoes what its
  \<^verbatim>\<open>startUpload\<close> wrote.
\<close>

lemma replay_latest:
  "replay (c # h) (map (Pair 0) xs) = rev (trace c xs) @ h"
  by (induction xs arbitrary: c h) simp_all

lemma run_last_trace: "run c xs = last (trace c xs)"
  by (induction xs arbitrary: c) (simp_all, metis list.distinct(1) trace.elims)

lemma run_replay: "run c xs = hd (replay [c] (map (Pair 0) xs))"
  by (simp add: replay_latest run_last_trace hd_rev)

lemma status_replay:
  "map status (replay h calls) = rev (map (\<lambda>(k, x). written_status x) calls) @ map status h"
  by (induction calls arbitrary: h) (auto simp: status_apply_operation)

lemma spread_record_cases: "spread_record h k \<in> set h \<or> spread_record h k = initial_codebase"
proof (cases h)
  case Nil
  then show ?thesis by simp
next
  case (Cons c cs)
  have "min k (length cs) < length (c # cs)" by simp
  then have "(c # cs) ! min k (length cs) \<in> set (c # cs)" by (rule nth_mem)
  with Cons show ?thesis by simp
qed

lemma error_replay:
  "r \<in> set (replay h calls) \<Longrightarrow> error r = Some m \<Longrightarrow>
   UploadError m \<in> snd ` set calls \<or> (\<exists>r0 \<in> set h. error r0 = Some m)"
proof (induction calls arbitrary: h)
  case Nil
  then show ?case by auto
next
  case (Cons call calls)
  obtain k x where call: "call = (k, x)" by (cases call)
  let ?new = "apply_operation (spread_record h k) x"
  from Cons.prems call have "r \<in> set (replay (?new # h) calls)" by simp
  from Cons.IH [OF this Cons.prems(2)]
  consider "UploadError m \<in> snd ` set calls" | "error ?new = Some m"
    | "\<exists>r0 \<in> set h. error r0 = Some m" by auto
  then show ?case
  proof cases
    case 1
    then show ?thesis by auto
  next
    case 2
    then have "x = UploadError m \<or> error (spread_record h k) = Some m"
      by (rule error_apply_operation)
    then show ?thesis
      using spread_record_cases [of h k] call
      by (auto simp: initial_codebase_def)
  next
    case 3
    then show ?thesis by auto
  qed
qed

lemma handleSubmit_stale:
  "hd (replay (c # h) (handleSubmit ''file'' (Some f) u (Resolved i))) = uploadComplete c i"
  "hd (replay (c # h) (handleSubmit ''file'' (Some f) u (Rejected d))) = uploadError c (upload_failure_message d)"
  by (simp_all add: handleSubmit_def)

text \<open>
  C7, as the code has it.  After every operation the status is one of the five
  literals.  The error field is an optional message: \<^verbatim>\<open>uploadError\<close> stores its
  argument together with the status \<^verbatim>\<open>'error'\<close>, \<^verbatim>\<open>startUpload\<close> and \<^verbatim>\<open>resetCodebase\<close>
  store null, and \<^verbatim>\<open>uploadComplete\<close> and \<^verbatim>\<open>setInsights\<close> store the error of the record
  they spread, unchanged.  So a non-null error after an operation comes with the
  status \<^verbatim>\<open>'error'\<close>, or the operation is one of the two that copy the field and the
  spread record held the message already.  Whatever records the calls spread, a
  non-null error of a stored record is a message that was passed to
  \<^verbatim>\<open>uploadError\<close>.
\<close>

theorem status_and_error_after_operation:
  fixes c :: "'i codebase" and x :: "'i operation" and xs :: "'i operation list"
    and calls :: "(nat \<times> 'i operation) list"
  shows
  "status (apply_operation c x) \<in> set lifecycle_statuses \<and>
   error (startUpload c n ut) = None \<and>
   error (resetCodebase c) = None \<and>
   error (uploadError c e) = Some e \<and>
   status (uploadError c e) = ''error'' \<and>
   error (uploadComplete c i) = error c \<and>
   error (setInsights c ins) = error c \<and>
   (carries_error x \<longrightarrow> error (apply_operation c x) = error c) \<and>
   (error (apply_operation c x) \<noteq> None \<longrightarrow>
      status (apply_operation c x) = ''error'' \<or>
      (carries_error x \<and> error (apply_operation c x) = error c)) \<and>
   (error (run initial_codebase xs) = Some m \<longrightarrow> UploadError m \<in> set xs) \<and>
   (\<forall>r \<in> set (replay [initial_codebase] calls).
      error r = Some m \<longrightarrow> UploadError m \<in> snd ` set calls)"
proof -
  have a: "status (apply_operation c x) \<in> set lifecycle_statuses"
    by (simp only: status_apply_operation written_status_lifecycle)
  have f: "error (startUpload c n ut) = None" "error (resetCodebase c) = None"
    "error (uploadError c e) = Some e" "status (uploadError c e) = ''error''"
    "error (uploadComplete c i) = error c" "error (setInsights c ins) = error c"
    by (simp_all add: startUpload_def resetCodebase_def uploadError_def uploadComplete_def
        setInsights_def)
  have g: "carries_error x \<longrightarrow> error (apply_operation c x) = error c"
    by (cases x) (simp_all add: uploadComplete_def setInsights_def)
  have b: "error (apply_operation c x) \<noteq> None \<longrightarrow>
      status (apply_operation c x) = ''error'' \<or>
      (carries_error x \<and> error (apply_operation c x) = error c)"
    by (cases x)
      (simp_all add: startUpload_def uploadComplete_def uploadError_def setInsights_def
        resetCodebase_def)
  have d: "error (run initial_codebase xs) = Some m \<longrightarrow> UploadError m \<in> set xs"
    using error_run_from [of initial_codebase xs m]
    by (auto simp: initial_codebase_def)
  have h: "\<forall>r \<in> set (replay [initial_codebase] calls).
      error r = Some m \<longrightarrow> UploadError m \<in> snd ` set calls"
  proof (intro ballI impI)
    fix r :: "'i codebase"
    assume "r \<in> set (replay [initial_codebase] calls)" "error r = Some m"
    then have "UploadError m \<in> snd ` set calls \<or>
        (\<exists>r0 \<in> set [initial_codebase :: 'i codebase]. error r0 = Some m)"
      by (rule error_replay)
    then show "UploadError m \<in> snd ` set calls"
      by (simp add: initial_codebase_def)
  qed
  from a f g b d h show ?thesis by blast
qed

theorem status_and_error_after_operation_witness:
  "error (apply_operation (startUpload (initial_codebase :: nat codebase) ''repo.zip'' ''file'')
       (UploadError ''An error occurred during upload'')) \<noteq> None \<and>
   status (apply_operation (startUpload (initial_codebase :: nat codebase) ''repo.zip'' ''file'')
       (UploadError ''An error occurred during upload'')) = ''error'' \<and>
   error (apply_operation (uploadError (initial_codebase :: nat codebase) ''boom'')
       (UploadComplete ''abc123'')) = Some ''boom'' \<and>
   error (run (initial_codebase :: nat codebase)
       [StartUpload ''repo.zip'' ''file'', UploadError ''An error occurred during upload''])
     = Some ''An error occurred during upload'' \<and>
   UploadError ''An error occurred during upload'' \<in>
     set [StartUpload ''repo.zip'' ''file'', UploadError ''An error occurred during upload'' :: nat operation]"
proof -
  note T = status_and_error_after_operation
    [where c = "startUpload (initial_codebase :: nat codebase) ''repo.zip'' ''file''"
      and x = "UploadError ''An error occurred during upload''"
      and xs = "[StartUpload ''repo.zip'' ''file'', UploadError ''An error occurred during upload'']"
      and m = "''An error occurred during upload''"]
  note U = status_and_error_after_operation
    [where c = "uploadError (initial_codebase :: nat codebase) ''boom''"
      and x = "UploadComplete ''abc123''"]
  from U have "carries_error (UploadComplete ''abc123'' :: nat operation) \<longrightarrow>
      error (apply_operation (uploadError (initial_codebase :: nat codebase) ''boom'')
        (UploadComplete ''abc123'')) = error (uploadError (initial_codebase :: nat codebase) ''boom'')"
    by (rule conjunct2 [THEN conjunct2, THEN conjunct2, THEN conjunct2, THEN conjunct2,
          THEN conjunct2, THEN conjunct2, THEN conjunct1])
  then have u: "error (apply_operation (uploadError (initial_codebase :: nat codebase) ''boom'')
       (UploadComplete ''abc123'')) = Some ''boom''"
    by (simp add: uploadError_def)
  from T have t1: "error (apply_operation (startUpload (initial_codebase :: nat codebase) ''repo.zip'' ''file'')
         (UploadError ''An error occurred during upload'')) \<noteq> None \<longrightarrow>
      status (apply_operation (startUpload (initial_codebase :: nat codebase) ''repo.zip'' ''file'')
         (UploadError ''An error occurred during upload'')) = ''error'' \<or>
      (carries_error (UploadError ''An error occurred during upload'' :: nat operation) \<and>
       error (apply_operation (startUpload (initial_codebase :: nat codebase) ''repo.zip'' ''file'')
         (UploadError ''An error occurred during upload''))
        = error (startUpload (initial_codebase :: nat codebase) ''repo.zip'' ''file''))"
    by (rule conjunct2 [THEN conjunct2, THEN conjunct2, THEN conjunct2, THEN conjunct2,
          THEN conjunct2, THEN conjunct2, THEN conjunct2, THEN conjunct1])
  have ne: "error (apply_operation (startUpload (initial_codebase :: nat codebase) ''repo.zip'' ''file'')
       (UploadError ''An error occurred during upload'')) \<noteq> None"
    by (simp add: uploadError_def)
  from t1 ne have st: "status (apply_operation (startUpload (initial_codebase :: nat codebase) ''repo.zip'' ''file'')
       (UploadError ''An error occurred during upload'')) = ''error''"
    by simp
  have r: "error (run (initial_codebase :: nat codebase)
       [StartUpload ''repo.zip'' ''file'', UploadError ''An error occurred during upload''])
     = Some ''An error occurred during upload''"
    by (simp add: startUpload_def uploadError_def)
  from T have "error (run (initial_codebase :: nat codebase)
       [StartUpload ''repo.zip'' ''file'', UploadError ''An error occurred during upload''])
       = Some ''An error occurred during upload'' \<longrightarrow>
     UploadError ''An error occurred during upload'' \<in>
       set [StartUpload ''repo.zip'' ''file'', UploadError ''An error occurred during upload'' :: nat operation]"
    by (rule conjunct2 [THEN conjunct2, THEN conjunct2, THEN conjunct2, THEN conjunct2,
          THEN conjunct2, THEN conjunct2, THEN conjunct2, THEN conjunct2, THEN conjunct1])
  with r have mem: "UploadError ''An error occurred during upload'' \<in>
       set [StartUpload ''repo.zip'' ''file'', UploadError ''An error occurred during upload'' :: nat operation]"
    by (rule rev_mp)
  from ne st u r mem show ?thesis by (intro conjI)
qed

text \<open>
  The reading "a non-null error only beside a failed status" fails: after
  \<^verbatim>\<open>uploadError\<close>, \<^verbatim>\<open>setInsights\<close> makes the record ready and keeps the message.  It
  also fails in the upload page's own flow: when a failed submission is
  followed by one that succeeds, \<^verbatim>\<open>uploadComplete\<close> spreads the record from before
  the second \<^verbatim>\<open>startUpload\<close>, and the record is processing with the old message.
\<close>

theorem error_only_with_failure_counterexample:
  "error (run (initial_codebase :: nat codebase)
      [UploadError ''An error occurred during upload'', SetInsights 7])
     = Some ''An error occurred during upload'' \<and>
   status (run (initial_codebase :: nat codebase)
      [UploadError ''An error occurred during upload'', SetInsights 7]) = ''ready'' \<and>
   \<not> (\<forall>xs :: nat operation list.
        error (run initial_codebase xs) \<noteq> None \<longrightarrow>
        status (run initial_codebase xs) = ''error'') \<and>
   error (hd (replay [initial_codebase :: nat codebase]
      (handleSubmit ''file'' (Some ''repo.zip'') [] (Rejected None) @
       handleSubmit ''file'' (Some ''repo.zip'') [] (Resolved ''abc123''))))
     = Some ''An error occurred during upload'' \<and>
   status (hd (replay [initial_codebase :: nat codebase]
      (handleSubmit ''file'' (Some ''repo.zip'') [] (Rejected None) @
       handleSubmit ''file'' (Some ''repo.zip'') [] (Resolved ''abc123''))))
     = ''processing''"
proof -
  let ?xs = "[UploadError ''An error occurred during upload'', SetInsights 7] :: nat operation list"
  have e: "error (run initial_codebase ?xs) = Some ''An error occurred during upload''"
    by (simp add: initial_codebase_def uploadError_def setInsights_def)
  have s: "status (run initial_codebase ?xs) = ''ready''"
    by (simp add: initial_codebase_def uploadError_def setInsights_def)
  have "\<not> (error (run initial_codebase ?xs) \<noteq> None \<longrightarrow>
            status (run initial_codebase ?xs) = ''error'')"
    by (simp only: e s) simp
  then have n: "\<not> (\<forall>xs :: nat operation list.
        error (run initial_codebase xs) \<noteq> None \<longrightarrow>
        status (run initial_codebase xs) = ''error'')"
    by blast
  let ?calls = "handleSubmit ''file'' (Some ''repo.zip'') [] (Rejected None) @
       handleSubmit ''file'' (Some ''repo.zip'') [] (Resolved ''abc123'') :: (nat \<times> nat operation) list"
  have r: "error (hd (replay [initial_codebase] ?calls)) = Some ''An error occurred during upload''"
    "status (hd (replay [initial_codebase] ?calls)) = ''processing''"
    by (simp_all add: handleSubmit_def upload_failure_message_def initial_codebase_def
        startUpload_def uploadError_def uploadComplete_def)
  from e s n r show ?thesis by blast
qed

section \<open>Properties of the visualization dispatcher\<close>

lemma Visualization_own_key:
  "map_of visualizationMap ty = Some c \<Longrightarrow> Visualization ty = Component c"
  by (simp add: Visualization_def property_read_def)

lemma Visualization_unknown:
  "map_of visualizationMap ty = None \<Longrightarrow> map_of object_prototype ty = None \<Longrightarrow>
   Visualization ty = Component (UnknownVisualization ty)"
  by (simp add: Visualization_def property_read_def)

text \<open>
  C10, at the type \<^verbatim>\<open>'constructor'\<close>.  It is not a key of the map literal, yet the
  read finds the inherited \<^verbatim>\<open>Object\<close> function, which is truthy, so the fallback
  is not chosen: the element is \<^verbatim>\<open><Object data config />\<close>.  The same holds for
  \<^verbatim>\<open>'__proto__'\<close>, where the chosen value is not even a function.
\<close>

theorem Visualization_inherited_key:
  "map_of visualizationMap ''constructor'' = None \<and>
   Visualization ''constructor'' = NativeFunction ''Object'' \<and>
   Visualization ''constructor'' \<noteq> Component (UnknownVisualization ''constructor'') \<and>
   map_of visualizationMap ''__proto__'' = None \<and>
   Visualization ''__proto__'' = ObjectPrototype"
  by (simp add: Visualization_def property_read_def visualizationMap_def object_prototype_def)

section \<open>Properties of chunking\<close>

lemma ordinals_of_append:
  "ordinals_of p (xs @ ys) = ordinals_of p xs @ ordinals_of p ys"
  by (simp add: ordinals_of_def)

lemma ordinals_of_chunk_file:
  "ordinals_of p (chunk_file pol b e n f) =
     (if path f = p then enumerate 0 (chunk_texts pol b (content f)) else [])"
proof -
  have "map (\<lambda>c. (ordinal c, chunk_text c)) (chunk_file pol b e n f)
          = enumerate 0 (chunk_texts pol b (content f))"
    by (simp add: chunk_file_def case_prod_unfold comp_def)
  moreover have "filter (\<lambda>c. sourceFile c = p) (chunk_file pol b e n f)
          = (if path f = p then chunk_file pol b e n f else [])"
    by (auto simp: chunk_file_def filter_empty_conv case_prod_unfold)
  ultimately show ?thesis
    by (simp add: ordinals_of_def)
qed

lemma ordinals_of_ingest_other:
  "p \<notin> path ` set fs \<Longrightarrow> ordinals_of p (ingest pol b e n fs) = []"
proof (induction fs arbitrary: n)
  case Nil
  then show ?case by (simp add: ordinals_of_def)
next
  case (Cons g gs)
  then have "path g \<noteq> p" "p \<notin> path ` set gs" by auto
  then show ?case
    using Cons.IH by (simp add: ordinals_of_append ordinals_of_chunk_file)
qed

lemma ordinals_of_ingest:
  "distinct (map path fs) \<Longrightarrow> f \<in> set fs \<Longrightarrow>
   ordinals_of (path f) (ingest pol b e n fs) = enumerate 0 (chunk_texts pol b (content f))"
proof (induction fs arbitrary: n)
  case Nil
  then show ?case by simp
next
  case (Cons g gs)
  show ?case
  proof (cases "f = g")
    case True
    with Cons.prems have "path f \<notin> path ` set gs" by auto
    then show ?thesis
      using True by (simp add: ordinals_of_append ordinals_of_chunk_file ordinals_of_ingest_other)
  next
    case False
    with Cons.prems have "f \<in> set gs" "path g \<noteq> path f" by auto
    then show ?thesis
      using Cons.IH Cons.prems by (simp add: ordinals_of_append ordinals_of_chunk_file)
  qed
qed

text \<open>
  C6.  Two ingestion runs over the same files, finished by the workers in any
  two orders and drawing chunk ids from any two counter values, give the chunks
  of every file the same ordinals (with the same texts): the ordinals are the
  positions \<open>0, 1, 2, \<dots>\<close> in the chunk texts, which depend on the file content and
  the policy only.
\<close>

theorem chunk_ordinals_deterministic:
  assumes "distinct (map path fs)" and "distinct (map path gs)" and "set gs = set fs"
    and "f \<in> set fs"
  shows "ordinals_of (path f) (ingest pol b e m gs) = ordinals_of (path f) (ingest pol b e n fs) \<and>
         map fst (ordinals_of (path f) (ingest pol b e n fs))
           = [0..<length (chunk_texts pol b (content f))]"
proof -
  from assms have "f \<in> set gs" by simp
  then have "ordinals_of (path f) (ingest pol b e m gs)
      = enumerate 0 (chunk_texts pol b (content f))"
    using assms(2) by (rule ordinals_of_ingest [rotated])
  moreover have "ordinals_of (path f) (ingest pol b e n fs)
      = enumerate 0 (chunk_texts pol b (content f))"
    using assms(1,4) by (rule ordinals_of_ingest)
  ultimately show ?thesis by simp
qed


theorem chunk_ordinals_deterministic_witness:
  "distinct (map path [\<lparr>path = ''a.py'', content = ''abcdefgh''\<rparr>,
                       \<lparr>path = ''b.js'', content = ''xyz''\<rparr>]) \<and>
   ordinals_of ''a.py''
     (ingest \<lparr>chunk_size = 4, overlap = 1\<rparr> (\<lambda>s. None) (\<lambda>t. []) 100
        [\<lparr>path = ''b.js'', content = ''xyz''\<rparr>, \<lparr>path = ''a.py'', content = ''abcdefgh''\<rparr>])
     = [(0, ''abcd''), (1, ''defg''), (2, ''gh'')]"
proof -
  let ?a = "\<lparr>path = ''a.py'', content = ''abcdefgh''\<rparr>"
  let ?b = "\<lparr>path = ''b.js'', content = ''xyz''\<rparr>"
  let ?pol = "\<lparr>chunk_size = 4, overlap = 1\<rparr>"
  have d1: "distinct (map path [?a, ?b])" by simp
  have d2: "distinct (map path [?b, ?a])" by simp
  have s: "set [?b, ?a] = set [?a, ?b]" by auto
  have m: "?a \<in> set [?a, ?b]" by simp
  have c: "ordinals_of ''a.py'' (ingest ?pol (\<lambda>s. None) (\<lambda>t. []) 0 [?a, ?b])
             = [(0, ''abcd''), (1, ''defg''), (2, ''gh'')]"
    by code_simp
  from chunk_ordinals_deterministic [OF d1 d2 s m, of ?pol "\<lambda>s. None" "\<lambda>t. []" 100 0] c d1
  show ?thesis by simp
qed

section \<open>Properties of retrieval\<close>

lemma better_cases: "better f a b = a \<or> better f a b = b"
  by (simp add: better_def)

lemma better_ge: "f a \<le> f (better f a b) \<and> f b \<le> f (better f a b)"
  by (auto simp: better_def)

lemma best_in: "best f c cs \<in> set (c # cs)"
proof (induction cs arbitrary: c)
  case Nil
  then show ?case by simp
next
  case (Cons d ds)
  from Cons.IH [of "better f c d"] better_cases [of f c d]
  show ?case by auto
qed

lemma best_ge_start: "f c \<le> f (best f c cs)"
proof (induction cs arbitrary: c)
  case Nil
  then show ?case by simp
next
  case (Cons d ds)
  have "f c \<le> f (better f c d)" using better_ge [of f c d] by simp
  also have "\<dots> \<le> f (best f (better f c d) ds)" by (rule Cons.IH)
  finally show ?case by simp
qed

lemma best_max: "d \<in> set (c # cs) \<Longrightarrow> f d \<le> f (best f c cs)"
proof (induction cs arbitrary: c)
  case Nil
  then show ?case by simp
next
  case (Cons e es)
  show ?case
  proof (cases "d \<in> set es")
    case True
    then show ?thesis using Cons.IH [of "better f c e"] by simp
  next
    case False
    with Cons.prems have "d = c \<or> d = e" by auto
    then have "f d \<le> f (better f c e)" using better_ge [of f c e] by auto
    also have "\<dots> \<le> f (best f (better f c e) es)" by (rule best_ge_start)
    finally show ?thesis by simp
  qed
qed

lemma length_select:
  "length (select sim lam dv q k sel cands) = length sel + min k (length cands)"
proof (induction sim lam dv q k sel cands rule: select.induct)
  case (3 sim lam dv q k sel c cs)
  have "best (score sim lam dv q sel) c cs \<in> set (c # cs)" by (rule best_in)
  then have "length (remove1 (best (score sim lam dv q sel) c cs) (c # cs)) = length cs"
    by (simp only: length_remove1) simp
  with 3 show ?case by (simp add: Let_def)
qed simp_all

lemma set_select:
  "set (select sim lam dv q k sel cands) \<subseteq> set sel \<union> set cands"
proof (induction sim lam dv q k sel cands rule: select.induct)
  case (3 sim lam dv q k sel c cs)
  have b: "best (score sim lam dv q sel) c cs \<in> set (c # cs)" by (rule best_in)
  have "set (remove1 (best (score sim lam dv q sel) c cs) (c # cs)) \<subseteq> set (c # cs)"
    by (rule set_remove1_subset)
  with 3 b show ?case by (auto simp: Let_def)
qed simp_all

lemma distinct_select:
  "distinct sel \<Longrightarrow> distinct cands \<Longrightarrow> set sel \<inter> set cands = {} \<Longrightarrow>
   distinct (select sim lam dv q k sel cands)"
proof (induction sim lam dv q k sel cands rule: select.induct)
  case (3 sim lam dv q k sel c cs)
  let ?b = "best (score sim lam dv q sel) c cs"
  have b: "?b \<in> set (c # cs)" by (rule best_in)
  have "distinct (sel @ [?b])" using 3(2,4) b by auto
  moreover have "distinct (remove1 ?b (c # cs))" using 3(3) by (simp only: distinct_remove1)
  moreover have "set (remove1 ?b (c # cs)) = set (c # cs) - {?b}"
    using 3(3) by (rule set_remove1_eq)
  then have "set (sel @ [?b]) \<inter> set (remove1 ?b (c # cs)) = {}"
    using 3(4) by auto
  ultimately show ?case using "3.IH" [of ?b] by (simp add: Let_def)
qed simp_all

lemma select_prefix:
  "take (length sel) (select sim lam dv q k sel cands) = sel"
proof (induction sim lam dv q k sel cands rule: select.induct)
  case (3 sim lam dv q k sel c cs)
  let ?b = "best (score sim lam dv q sel) c cs"
  let ?r = "select sim lam dv q k (sel @ [?b]) (remove1 ?b (c # cs))"
  from "3.IH" [of ?b] have "take (Suc (length sel)) ?r = sel @ [?b]" by simp
  then have "take (length sel) (take (Suc (length sel)) ?r) = take (length sel) (sel @ [?b])"
    by simp
  then show ?case by (simp add: Let_def min_def)
qed simp_all

lemma select_nth_first:
  "select sim lam dv q (Suc k) sel (c # cs) ! length sel = best (score sim lam dv q sel) c cs"
proof -
  let ?b = "best (score sim lam dv q sel) c cs"
  let ?r = "select sim lam dv q k (sel @ [?b]) (remove1 ?b (c # cs))"
  have "take (length (sel @ [?b])) ?r = sel @ [?b]" by (rule select_prefix)
  then have "take (Suc (length sel)) ?r ! length sel = (sel @ [?b]) ! length sel" by simp
  then have "?r ! length sel = ?b" by simp
  then show ?thesis by (simp add: Let_def)
qed

lemma select_greedy:
  "length sel \<le> i \<Longrightarrow> i < length (select sim lam dv q k sel cands) \<Longrightarrow> c \<in> set cands \<Longrightarrow>
   c \<notin> set (drop (length sel) (take i (select sim lam dv q k sel cands))) \<Longrightarrow>
   score sim lam dv q (take i (select sim lam dv q k sel cands)) c
     \<le> score sim lam dv q (take i (select sim lam dv q k sel cands))
          (select sim lam dv q k sel cands ! i)"
proof (induction sim lam dv q k sel cands arbitrary: i rule: select.induct)
  case (1 sim lam dv q sel cands)
  then show ?case by simp
next
  case (2 sim lam dv q k sel)
  then show ?case by simp
next
  case (3 sim lam dv q k sel c0 cs)
  let ?b = "best (score sim lam dv q sel) c0 cs"
  let ?r = "select sim lam dv q k (sel @ [?b]) (remove1 ?b (c0 # cs))"
  have r: "select sim lam dv q (Suc k) sel (c0 # cs) = ?r" by (simp add: Let_def)
  have nth: "?r ! length sel = ?b"
    using select_nth_first [of sim lam dv q k sel c0 cs] by (simp only: r)
  have pre: "take (length sel) ?r = sel"
    using select_prefix [of sel sim lam dv q "Suc k" "c0 # cs"] by (simp only: r)
  show ?case
  proof (cases "i = length sel")
    case True
    have "score sim lam dv q sel c \<le> score sim lam dv q sel ?b"
      using "3.prems"(3) by (rule best_max)
    then show ?thesis by (simp only: r True pre nth)
  next
    case False
    with "3.prems"(1) have lt: "length sel < i" by simp
    from "3.prems"(2) have il: "i < length ?r" by (simp only: r)
    have "drop (length sel) (take i ?r) ! 0 = ?r ! length sel"
      using lt il by simp
    moreover have "0 < length (drop (length sel) (take i ?r))" using lt il by simp
    ultimately have "?b \<in> set (drop (length sel) (take i ?r))"
      using nth nth_mem by metis
    with "3.prems"(4) have "c \<noteq> ?b" by (auto simp only: r)
    then have "c \<in> set (remove1 ?b (c0 # cs)) \<longleftrightarrow> c \<in> set (c0 # cs)"
      by (rule in_set_remove1)
    with "3.prems"(3) have c1: "c \<in> set (remove1 ?b (c0 # cs))"
      by blast
    have "set (drop (Suc (length sel)) (take i ?r)) \<subseteq> set (drop (length sel) (take i ?r))"
      by (rule set_drop_subset_set_drop) simp
    with "3.prems"(4) have c2: "c \<notin> set (drop (length (sel @ [?b])) (take i ?r))"
      by (auto simp only: r length_append_singleton)
    have "length (sel @ [?b]) \<le> i" using lt by simp
    from "3.IH" [OF refl this il c1 c2] show ?thesis by (simp only: r)
  qed
qed



text \<open>
  What the search as modelled guarantees for every index, query and \<open>k\<close>: it
  returns \<open>k\<close> chunks, or all of them when the index has fewer; every returned
  chunk is a chunk of the index; no chunk is returned twice when the index lists
  none twice; and every returned chunk has, when it is picked, the greatest
  score among the chunks of the index that are not yet picked.
\<close>

lemma search_properties:
  "length (search sim lam index q k dv) = min k (length index) \<and>
   length (search sim lam index q k dv) \<le> k \<and>
   set (search sim lam index q k dv) \<subseteq> set index \<and>
   (distinct index \<longrightarrow> distinct (search sim lam index q k dv)) \<and>
   (\<forall>i < length (search sim lam index q k dv). \<forall>c \<in> set index.
      c \<notin> set (take i (search sim lam index q k dv)) \<longrightarrow>
      score sim lam dv q (take i (search sim lam index q k dv)) c
        \<le> score sim lam dv q (take i (search sim lam index q k dv))
             (search sim lam index q k dv ! i))"
proof -
  have a: "length (search sim lam index q k dv) = min k (length index)"
    by (simp add: search_def length_select)
  then have a': "length (search sim lam index q k dv) \<le> k"
    by simp
  have b: "set (search sim lam index q k dv) \<subseteq> set index"
    using set_select [of sim lam dv q k "[]" index] by (simp add: search_def)
  have c: "distinct index \<longrightarrow> distinct (search sim lam index q k dv)"
    using distinct_select [of "[]" index sim lam dv q k] by (simp add: search_def)
  have d: "\<forall>i < length (search sim lam index q k dv). \<forall>c \<in> set index.
      c \<notin> set (take i (search sim lam index q k dv)) \<longrightarrow>
      score sim lam dv q (take i (search sim lam index q k dv)) c
        \<le> score sim lam dv q (take i (search sim lam index q k dv))
             (search sim lam index q k dv ! i)"
    using select_greedy [of "[]" _ sim lam dv q k index] by (simp add: search_def)
  from a a' b c d show ?thesis by blast
qed

section \<open>Properties of the role template store\<close>

lemma validate_Inr:
  "validate known t = Inr t \<longleftrightarrow> placeholder_set_ok t \<and> task_ids_ok t \<and> template_id t \<in> set known"
  by (simp add: validate_def)

lemma validate_cases: "validate known t = Inr t \<or> isl (validate known t)"
  by (simp add: validate_def)

lemma load_templates_filter:
  "load_templates known ts = filter (\<lambda>t. validate known t = Inr t) ts"
proof (induction ts)
  case Nil
  then show ?case by simp
next
  case (Cons t ts)
  show ?case
  proof (cases "validate known t = Inr t")
    case True
    with Cons show ?thesis by simp
  next
    case False
    with validate_cases [of known t] obtain e where "validate known t = Inl e"
      by (cases "validate known t") auto
    with Cons False show ?thesis by simp
  qed
qed

lemma get_template_member: "get_template store r = Inr t \<Longrightarrow> t \<in> set store \<and> template_id t = r"
  by (auto simp: get_template_def find_Some_iff split: option.splits)

lemma placeholder_set_ok_iff:
  "placeholder_set_ok t \<longleftrightarrow>
     (\<exists>names. placeholders (promptTemplate t) = Some names \<and>
         set names = {''context'', ''focus'', ''question''})"
  by (cases "placeholders (promptTemplate t)") (simp_all add: placeholder_set_ok_def)

text \<open>
  C5.  Every template in the store after loading has a prompt template whose
  placeholders are exactly context, focus and question, and task ids that are
  pairwise distinct.  A template that violates either condition is rejected by
  the load-time validation and is not in the store, so a query, which only
  looks an id up, can only return a template that satisfies both.
\<close>

theorem loaded_templates_valid:
  "(\<forall>t \<in> set (load_templates known ts).
      (\<exists>names. placeholders (promptTemplate t) = Some names \<and>
         set names = {''context'', ''focus'', ''question''}) \<and>
      distinct (map task_id (analysisTasks t))) \<and>
   (\<forall>t. \<not> (placeholder_set_ok t \<and> task_ids_ok t) \<longrightarrow>
      isl (validate known t) \<and> t \<notin> set (load_templates known ts)) \<and>
   (\<forall>r t. get_template (load_templates known ts) r = Inr t \<longrightarrow>
      placeholder_set_ok t \<and> task_ids_ok t)"
proof -
  have m: "t \<in> set (load_templates known ts) \<Longrightarrow> placeholder_set_ok t \<and> task_ids_ok t" for t
    by (simp add: load_templates_filter validate_Inr)
  have a: "\<forall>t \<in> set (load_templates known ts).
      (\<exists>names. placeholders (promptTemplate t) = Some names \<and>
         set names = {''context'', ''focus'', ''question''}) \<and>
      distinct (map task_id (analysisTasks t))"
  proof
    fix t assume "t \<in> set (load_templates known ts)"
    then have "placeholder_set_ok t" "task_ids_ok t" using m by blast+
    then show "(\<exists>names. placeholders (promptTemplate t) = Some names \<and>
         set names = {''context'', ''focus'', ''question''}) \<and>
      distinct (map task_id (analysisTasks t))"
      by (simp only: placeholder_set_ok_iff task_ids_ok_def) 
  qed
  have b: "\<forall>t. \<not> (placeholder_set_ok t \<and> task_ids_ok t) \<longrightarrow>
      isl (validate known t) \<and> t \<notin> set (load_templates known ts)"
  proof (intro allI impI)
    fix t assume n: "\<not> (placeholder_set_ok t \<and> task_ids_ok t)"
    then have "validate known t \<noteq> Inr t" by (simp only: validate_Inr) blast
    with validate_cases [of known t] have "isl (validate known t)" by blast
    moreover from n m have "t \<notin> set (load_templates known ts)" by blast
    ultimately show "isl (validate known t) \<and> t \<notin> set (load_templates known ts)" ..
  qed
  have c: "\<forall>r t. get_template (load_templates known ts) r = Inr t \<longrightarrow>
      placeholder_set_ok t \<and> task_ids_ok t"
    using get_template_member [of "load_templates known ts"] m by blast
  from a b c show ?thesis by blast
qed

theorem loaded_templates_valid_witness:
  "project_manager \<in> set (load_templates [''project_manager'', ''role_id''] [project_manager, readme_sample]) \<and>
   distinct (map task_id (analysisTasks project_manager)) \<and>
   isl (validate [''project_manager'', ''role_id''] readme_sample) \<and>
   readme_sample \<notin> set (load_templates [''project_manager'', ''role_id''] [project_manager, readme_sample])"
proof -
  let ?known = "[''project_manager'', ''role_id'']"
  let ?ts = "[project_manager, readme_sample]"
  have pm: "placeholders (promptTemplate project_manager) = Some [''context'', ''focus'', ''question'']"
    by (simp add: project_manager_def placeholders_def)
  have rs: "placeholders (promptTemplate readme_sample) = Some [''role'', ''focus'', ''task'']"
    by (simp add: readme_sample_def placeholders_def)
  have ok: "placeholder_set_ok project_manager"
    by (simp only: placeholder_set_ok_def pm) auto
  have ids: "task_ids_ok project_manager"
    by (simp add: task_ids_ok_def project_manager_def)
  have "set [''role'', ''focus'', ''task''] \<noteq> {''context'', ''focus'', ''question''}"
  proof
    assume e: "set [''role'', ''focus'', ''task''] = {''context'', ''focus'', ''question''}"
    have "''role'' \<in> set [''role'', ''focus'', ''task'']" by simp
    then have "''role'' \<in> {''context'', ''focus'', ''question''}" by (simp only: e)
    then show False by simp
  qed
  then have bad: "\<not> placeholder_set_ok readme_sample"
    by (simp only: placeholder_set_ok_def rs option.case simp_thms)
  have tid: "template_id project_manager = ''project_manager''"
    by (simp add: project_manager_def)
  have "validate ?known project_manager = Inr project_manager"
    by (simp add: validate_def ok ids tid)
  then have mem: "project_manager \<in> set (load_templates ?known ?ts)"
    by simp
  note T = loaded_templates_valid [of ?known ?ts]
  from T have a: "\<forall>t \<in> set (load_templates ?known ?ts).
      (\<exists>names. placeholders (promptTemplate t) = Some names \<and>
         set names = {''context'', ''focus'', ''question''}) \<and>
      distinct (map task_id (analysisTasks t))"
    by (rule conjunct1)
  from T have b: "\<forall>t. \<not> (placeholder_set_ok t \<and> task_ids_ok t) \<longrightarrow>
      isl (validate ?known t) \<and> t \<notin> set (load_templates ?known ?ts)"
    by (rule conjunct2 [THEN conjunct1])
  from a mem have "(\<exists>names. placeholders (promptTemplate project_manager) = Some names \<and>
         set names = {''context'', ''focus'', ''question''}) \<and>
      distinct (map task_id (analysisTasks project_manager))"
    by (rule bspec)
  then have d: "distinct (map task_id (analysisTasks project_manager))"
    by (rule conjunct2)
  from b have imp: "\<not> (placeholder_set_ok readme_sample \<and> task_ids_ok readme_sample) \<longrightarrow>
      isl (validate ?known readme_sample) \<and> readme_sample \<notin> set (load_templates ?known ?ts)"
    by (rule spec)
  from bad have "\<not> (placeholder_set_ok readme_sample \<and> task_ids_ok readme_sample)"
    by (rule contrapos_nn) (rule conjunct1)
  with imp have r: "isl (validate ?known readme_sample) \<and>
      readme_sample \<notin> set (load_templates ?known ?ts)"
    by (rule mp)
  from r have r1: "isl (validate ?known readme_sample)" by (rule conjunct1)
  from r have r2: "readme_sample \<notin> set (load_templates ?known ?ts)" by (rule conjunct2)
  from mem d r1 r2 show ?thesis by (intro conjI)
qed


section \<open>Properties of the orchestrator\<close>

lemma outcome_task_run_task: "outcome_task (run_task orc tpl ix focus t) = task_id t"
  by (simp add: run_task_def split: sum.splits)

lemma is_failed_run_task:
  "is_failed (run_task orc tpl ix focus t) \<longleftrightarrow> isl (generate orc (task_prompt orc tpl ix focus t))"
  by (simp add: run_task_def split: sum.splits)

lemma run_task_failed:
  "isl (generate orc (task_prompt orc tpl ix focus t)) \<Longrightarrow>
   run_task orc tpl ix focus t = TaskFailed (task_id t) GenerationError"
  by (cases "generate orc (task_prompt orc tpl ix focus t)")
    (simp_all add: run_task_def, metis generation_error.exhaust)

lemma run_task_answered:
  "\<not> isl (generate orc (task_prompt orc tpl ix focus t)) \<Longrightarrow>
   run_task orc tpl ix focus t =
     Answered \<lparr>taskId = task_id t, asked = question t,
       answer = projr (generate orc (task_prompt orc tpl ix focus t)),
       citedChunkIds = map chunk_id (used_chunks orc ix focus t),
       visualization = visualizationSpec t\<rparr>"
  by (cases "generate orc (task_prompt orc tpl ix focus t)") (simp_all add: run_task_def)

lemma answers_run_tasks:
  "answers (map (run_task orc tpl ix focus) ts) =
     map (\<lambda>t. projr (generate orc (task_prompt orc tpl ix focus t)))
       (filter (\<lambda>t. \<not> isl (generate orc (task_prompt orc tpl ix focus t))) ts)"
proof (induction ts)
  case Nil
  then show ?case by simp
next
  case (Cons t ts)
  show ?case
  proof (cases "isl (generate orc (task_prompt orc tpl ix focus t))")
    case True
    then show ?thesis using Cons by (simp add: run_task_failed)
  next
    case False
    then show ?thesis using Cons by (simp add: run_task_answered)
  qed
qed

text \<open>
  C3.  In a run over an index, every task of the role is executed and recorded
  in task order, whether or not generation failed for an earlier one: a task
  whose generation call fails is recorded as failed with the GenerationError
  marker, every other task yields its InsightResult.  When generation fails for
  some task the run ends partial.  The summary is the result of the summary
  call on the answers of the tasks that succeeded.  A run ends failed exactly
  when the index is missing.
\<close>

theorem partial_failure_continues:
  "map outcome_task (outcomes (orchestrate orc tpl (Some ix) focus)) = map task_id (analysisTasks tpl) \<and>
   (\<forall>t \<in> set (analysisTasks tpl).
      if isl (generate orc (task_prompt orc tpl ix focus t))
      then TaskFailed (task_id t) GenerationError \<in> set (outcomes (orchestrate orc tpl (Some ix) focus))
      else Answered \<lparr>taskId = task_id t, asked = question t,
             answer = projr (generate orc (task_prompt orc tpl ix focus t)),
             citedChunkIds = map chunk_id (used_chunks orc ix focus t),
             visualization = visualizationSpec t\<rparr>
           \<in> set (outcomes (orchestrate orc tpl (Some ix) focus))) \<and>
   ((\<exists>t \<in> set (analysisTasks tpl). isl (generate orc (task_prompt orc tpl ix focus t))) \<longrightarrow>
      run_state (orchestrate orc tpl (Some ix) focus) = Partial) \<and>
   summary (orchestrate orc tpl (Some ix) focus) =
     Some (generate orc (summary_prompt orc
       (map (\<lambda>t. projr (generate orc (task_prompt orc tpl ix focus t)))
          (filter (\<lambda>t. \<not> isl (generate orc (task_prompt orc tpl ix focus t)))
             (analysisTasks tpl))))) \<and>
   (run_state (orchestrate orc tpl index focus) = Failed \<longleftrightarrow> index = None)"
proof -
  let ?r = "orchestrate orc tpl (Some ix) focus"
  have outs: "outcomes ?r = map (run_task orc tpl ix focus) (analysisTasks tpl)"
    by (simp add: orchestrate_def Let_def)
  have a: "map outcome_task (outcomes ?r) = map task_id (analysisTasks tpl)"
    by (simp add: outs outcome_task_run_task)
  have b: "\<forall>t \<in> set (analysisTasks tpl).
      if isl (generate orc (task_prompt orc tpl ix focus t))
      then TaskFailed (task_id t) GenerationError \<in> set (outcomes ?r)
      else Answered \<lparr>taskId = task_id t, asked = question t,
             answer = projr (generate orc (task_prompt orc tpl ix focus t)),
             citedChunkIds = map chunk_id (used_chunks orc ix focus t),
             visualization = visualizationSpec t\<rparr>
           \<in> set (outcomes ?r)"
  proof
    fix t assume t: "t \<in> set (analysisTasks tpl)"
    then have "run_task orc tpl ix focus t \<in> set (outcomes ?r)" by (simp add: outs)
    then show "if isl (generate orc (task_prompt orc tpl ix focus t))
      then TaskFailed (task_id t) GenerationError \<in> set (outcomes ?r)
      else Answered \<lparr>taskId = task_id t, asked = question t,
             answer = projr (generate orc (task_prompt orc tpl ix focus t)),
             citedChunkIds = map chunk_id (used_chunks orc ix focus t),
             visualization = visualizationSpec t\<rparr>
           \<in> set (outcomes ?r)"
      using run_task_failed [of orc tpl ix focus t] run_task_answered [of orc tpl ix focus t]
      by (cases "isl (generate orc (task_prompt orc tpl ix focus t))") simp_all
  qed
  have c: "(\<exists>t \<in> set (analysisTasks tpl). isl (generate orc (task_prompt orc tpl ix focus t))) \<longrightarrow>
      run_state ?r = Partial"
    by (auto simp: orchestrate_def Let_def list_ex_iff is_failed_run_task)
  have d: "summary ?r =
     Some (generate orc (summary_prompt orc
       (map (\<lambda>t. projr (generate orc (task_prompt orc tpl ix focus t)))
          (filter (\<lambda>t. \<not> isl (generate orc (task_prompt orc tpl ix focus t)))
             (analysisTasks tpl)))))"
    by (simp add: orchestrate_def Let_def answers_run_tasks)
  have e: "run_state (orchestrate orc tpl index focus) = Failed \<longleftrightarrow> index = None"
    by (cases index) (simp_all add: orchestrate_def Let_def)
  from a b c d e show ?thesis by blast
qed

theorem partial_failure_continues_witness:
  "let orc = \<lparr>similarity = inner_product, weight = 1/2, top_k = 5, max_context = 100,
             embed_query = (\<lambda>s. [1, 0]),
             generate = (\<lambda>p. if p = ''import os/api/complexity?'' then Inl GenerationError else Inr p),
             summary_prompt = concat\<rparr>;
       tpl = \<lparr>template_id = ''project_manager'', template_name = ''Project Manager'',
             template_description = ''Template'', promptTemplate = ''{context}/{focus}/{question}'',
             analysisTasks =
               [\<lparr>task_id = ''project_structure'', task_type = ''structure'',
                  question = ''structure?'', visualizationSpec = None\<rparr>,
                \<lparr>task_id = ''dependencies'', task_type = ''dependencies'',
                  question = ''dependencies?'', visualizationSpec = None\<rparr>,
                \<lparr>task_id = ''complexity'', task_type = ''complexity'',
                  question = ''complexity?'', visualizationSpec = None\<rparr>,
                \<lparr>task_id = ''tech_stack'', task_type = ''technology'',
                  question = ''technology?'', visualizationSpec = None\<rparr>]\<rparr>;
       ix = [\<lparr>chunk_id = 0, sourceFile = ''a.py'', ordinal = 0, chunk_text = ''import os'',
              embedding = [1, 0]\<rparr>];
       r = orchestrate orc tpl (Some ix) (Some ''api'')
   in run_state r = Partial \<and>
      map outcome_task (outcomes r)
        = [''project_structure'', ''dependencies'', ''complexity'', ''tech_stack''] \<and>
      TaskFailed ''complexity'' GenerationError \<in> set (outcomes r) \<and>
      summary r = Some (Inr (''import os/api/structure?'' @ ''import os/api/dependencies?''
                             @ ''import os/api/technology?''))"
proof -
  let ?orc = "\<lparr>similarity = inner_product, weight = 1/2, top_k = 5, max_context = 100,
             embed_query = (\<lambda>s. [1, 0]),
             generate = (\<lambda>p. if p = ''import os/api/complexity?'' then Inl GenerationError else Inr p),
             summary_prompt = concat\<rparr>"
  let ?t3 = "\<lparr>task_id = ''complexity'', task_type = ''complexity'',
                  question = ''complexity?'', visualizationSpec = None\<rparr>"
  let ?tpl = "\<lparr>template_id = ''project_manager'', template_name = ''Project Manager'',
             template_description = ''Template'', promptTemplate = ''{context}/{focus}/{question}'',
             analysisTasks =
               [\<lparr>task_id = ''project_structure'', task_type = ''structure'',
                  question = ''structure?'', visualizationSpec = None\<rparr>,
                \<lparr>task_id = ''dependencies'', task_type = ''dependencies'',
                  question = ''dependencies?'', visualizationSpec = None\<rparr>,
                ?t3,
                \<lparr>task_id = ''tech_stack'', task_type = ''technology'',
                  question = ''technology?'', visualizationSpec = None\<rparr>]\<rparr>"
  let ?ix = "[\<lparr>chunk_id = 0, sourceFile = ''a.py'', ordinal = 0, chunk_text = ''import os'',
              embedding = [1, 0]\<rparr>]"
  let ?r = "orchestrate ?orc ?tpl (Some ?ix) (Some ''api'')"
  let ?fails = "\<lambda>t. isl (generate ?orc (task_prompt ?orc ?tpl ?ix (Some ''api'') t))"
  note T = partial_failure_continues [of ?orc ?tpl ?ix "Some ''api''" "Some ?ix"]
  have f: "?fails ?t3" by code_simp
  have m: "?t3 \<in> set (analysisTasks ?tpl)" by simp
  from T have "map outcome_task (outcomes ?r) = map task_id (analysisTasks ?tpl)"
    by (rule conjunct1)
  then have a: "map outcome_task (outcomes ?r)
        = [''project_structure'', ''dependencies'', ''complexity'', ''tech_stack'']"
    by simp
  from T have "\<forall>t \<in> set (analysisTasks ?tpl).
      if ?fails t
      then TaskFailed (task_id t) GenerationError \<in> set (outcomes ?r)
      else Answered \<lparr>taskId = task_id t, asked = question t,
             answer = projr (generate ?orc (task_prompt ?orc ?tpl ?ix (Some ''api'') t)),
             citedChunkIds = map chunk_id (used_chunks ?orc ?ix (Some ''api'') t),
             visualization = visualizationSpec t\<rparr>
           \<in> set (outcomes ?r)"
    by (rule conjunct2 [THEN conjunct1])
  from this m have "if ?fails ?t3
      then TaskFailed (task_id ?t3) GenerationError \<in> set (outcomes ?r)
      else Answered \<lparr>taskId = task_id ?t3, asked = question ?t3,
             answer = projr (generate ?orc (task_prompt ?orc ?tpl ?ix (Some ''api'') ?t3)),
             citedChunkIds = map chunk_id (used_chunks ?orc ?ix (Some ''api'') ?t3),
             visualization = visualizationSpec ?t3\<rparr>
           \<in> set (outcomes ?r)"
    by (rule bspec)
  with f have "TaskFailed (task_id ?t3) GenerationError \<in> set (outcomes ?r)"
    by (simp only: if_True)
  then have b: "TaskFailed ''complexity'' GenerationError \<in> set (outcomes ?r)"
    by (simp only: analysis_task.select_convs)
  from T have "(\<exists>t \<in> set (analysisTasks ?tpl). ?fails t) \<longrightarrow> run_state ?r = Partial"
    by (rule conjunct2 [THEN conjunct2, THEN conjunct1])
  moreover from m f have "\<exists>t \<in> set (analysisTasks ?tpl). ?fails t" by (rule bexI [rotated])
  ultimately have c: "run_state ?r = Partial" by (rule mp)
  from T have "summary ?r =
     Some (generate ?orc (summary_prompt ?orc
       (map (\<lambda>t. projr (generate ?orc (task_prompt ?orc ?tpl ?ix (Some ''api'') t)))
          (filter (\<lambda>t. \<not> ?fails t) (analysisTasks ?tpl)))))"
    by (rule conjunct2 [THEN conjunct2, THEN conjunct2, THEN conjunct1])
  moreover have "Some (generate ?orc (summary_prompt ?orc
       (map (\<lambda>t. projr (generate ?orc (task_prompt ?orc ?tpl ?ix (Some ''api'') t)))
          (filter (\<lambda>t. \<not> ?fails t) (analysisTasks ?tpl)))))
      = Some (Inr (''import os/api/structure?'' @ ''import os/api/dependencies?''
                             @ ''import os/api/technology?''))"
    by code_simp
  ultimately have d: "summary ?r = Some (Inr (''import os/api/structure?''
      @ ''import os/api/dependencies?'' @ ''import os/api/technology?''))"
    by (rule trans)
  from c a b d show ?thesis
    unfolding Let_def by (intro conjI)
qed

section \<open>Properties of the insight query\<close>






end
